theory Spec2Isabelle
  imports
    Complex_Main
    "HOL-Library.Multiset"
    "HOL-Library.Char_ord"
    "HOL-Library.List_Lexorder"
begin

section \<open>The document store of Reflex-docs-mcp (database.py)\<close>

text \<open>
  The module keeps two tables and one full-text index in an SQLite file and reaches them
  through SQL statements. The embedding below makes the file an explicit value: a record
  holding the rows of each table in rowid order, the entries of the FTS5 index and the
  AUTOINCREMENT counters. Every Python function that executes statements and commits is
  a function from the old database to the new one (or to what it returns); the triggers
  that \<open>init_db\<close> installs are functions run by the statement that fires them.

  A Python \<open>str\<close> is a \<open>string\<close>: each \<open>char\<close> stands for one code point, so
  \<open>length\<close> is Python's \<open>len\<close>. SQLite compares TEXT bytewise on the UTF-8 encoding,
  which orders strings as the lexicographic order of their code points does; that is
  the order of \<open>string\<close> here. Python integers are \<open>int\<close>, rowids are \<open>nat\<close>, and the
  double that \<open>bm25\<close> returns is a \<open>real\<close> (only \<open>abs\<close> and comparisons are applied to
  it, and both are exact on doubles).
\<close>

subsection \<open>Tables\<close>

text \<open>A row of \<open>docs_sections\<close> (CREATE TABLE, database.py lines 41-52).\<close>

record section_row =
  s_id :: nat
  s_slug :: string
  s_title :: string
  s_heading :: string
  s_level :: int
  s_content :: string
  s_position :: int
  s_url :: string

text \<open>
  What the index \<open>docs_sections_fts\<close> holds for one rowid: the four indexed columns
  (CREATE VIRTUAL TABLE, lines 55-64).
\<close>

record fts_entry =
  fts_rowid :: nat
  fts_slug :: string
  fts_title :: string
  fts_heading :: string
  fts_content :: string

text \<open>A row of \<open>components\<close> (lines 91-100); the nullable columns are options.\<close>

record component_row =
  c_id :: nat
  c_name :: string
  c_category :: "string option"
  c_description :: string
  c_doc_slug :: "string option"
  c_url :: "string option"

record database =
  docs_sections :: "section_row list"
  docs_sections_seq :: nat
  docs_sections_fts :: "fts_entry list"
  components :: "component_row list"
  components_seq :: nat

subsection \<open>Result objects\<close>

text \<open>
  Modelled from the spec: models.py, which declares DocResult, DocSection, DocPage and
  ComponentInfo, is not among the sources. The records carry the fields that
  database.py passes to the constructors, which are the fields section 6 of the spec
  lists.
\<close>

record DocResult =
  dr_slug :: string
  dr_title :: string
  dr_score :: real
  dr_snippet :: string
  dr_url :: string

record DocSection =
  ds_heading :: string
  ds_level :: int
  ds_content :: string

record DocPage =
  dp_slug :: string
  dp_title :: string
  dp_url :: string
  dp_sections :: "DocSection list"

record ComponentInfo =
  ci_name :: string
  ci_category :: "string option"
  ci_description :: string
  ci_doc_slug :: "string option"
  ci_url :: "string option"

text \<open>The dictionary that \<open>get_stats\<close> returns.\<close>

record stats =
  st_sections :: int
  st_pages :: int
  st_components :: int

datatype sqlite_error = OperationalError

subsection \<open>init\_db and the triggers\<close>

text \<open>On a fresh file \<open>init_db\<close> creates empty tables, an empty index and the triggers.\<close>

definition init_db :: database where
  "init_db = \<lparr>docs_sections = [], docs_sections_seq = 0, docs_sections_fts = [],
     components = [], components_seq = 0\<rparr>"

definition fts_of :: "section_row \<Rightarrow> fts_entry" where
  "fts_of r = \<lparr>fts_rowid = s_id r, fts_slug = s_slug r, fts_title = s_title r,
     fts_heading = s_heading r, fts_content = s_content r\<rparr>"

text \<open>
  Trigger \<open>docs_sections_ai\<close> (lines 67-72): after an insert, one index entry with the
  new row's id and text columns.
\<close>

definition docs_sections_ai :: "section_row \<Rightarrow> database \<Rightarrow> database" where
  "docs_sections_ai new db = db\<lparr>docs_sections_fts := docs_sections_fts db @ [fts_of new]\<rparr>"

text \<open>
  Trigger \<open>docs_sections_ad\<close> (lines 74-79): after a delete, the FTS5 \<open>'delete'\<close>
  command with the old row's values, which takes that row's entry out of the index.
\<close>

definition docs_sections_ad :: "section_row \<Rightarrow> database \<Rightarrow> database" where
  "docs_sections_ad old db = db\<lparr>docs_sections_fts := remove1 (fts_of old) (docs_sections_fts db)\<rparr>"

subsection \<open>Writes\<close>

text \<open>
  \<open>DELETE FROM docs_sections\<close>: the table has a delete trigger, so the rows go one by
  one, each followed by the trigger.
\<close>

definition delete_section :: "section_row \<Rightarrow> database \<Rightarrow> database" where
  "delete_section old db =
     docs_sections_ad old (db\<lparr>docs_sections := remove1 old (docs_sections db)\<rparr>)"

definition delete_from_docs_sections :: "database \<Rightarrow> database" where
  "delete_from_docs_sections db = fold delete_section (docs_sections db) db"

definition clear_db :: "database \<Rightarrow> database" where
  "clear_db db = (delete_from_docs_sections db)\<lparr>components := []\<rparr>"

text \<open>
  \<open>insert_section\<close> (lines 118-137). The id column is AUTOINCREMENT: the new row takes
  the counter's successor, also after a clear.
\<close>

definition insert_section ::
  "string \<Rightarrow> string \<Rightarrow> string \<Rightarrow> int \<Rightarrow> string \<Rightarrow> int \<Rightarrow> string \<Rightarrow> database \<Rightarrow> database" where
  "insert_section slug title heading level content position url db =
     (let new = \<lparr>s_id = Suc (docs_sections_seq db), s_slug = slug, s_title = title,
                 s_heading = heading, s_level = level, s_content = content,
                 s_position = position, s_url = url\<rparr>
      in docs_sections_ai new
           (db\<lparr>docs_sections := docs_sections db @ [new],
               docs_sections_seq := Suc (docs_sections_seq db)\<rparr>))"

text \<open>
  \<open>insert_component\<close> (lines 140-157). \<open>INSERT OR REPLACE\<close> under the UNIQUE constraint
  on name: the rows with that name are deleted, then the new row is inserted.
\<close>

definition insert_component ::
  "string \<Rightarrow> string option \<Rightarrow> string \<Rightarrow> string option \<Rightarrow> string option \<Rightarrow> database \<Rightarrow> database" where
  "insert_component name category description doc_slug url db =
     (let new = \<lparr>c_id = Suc (components_seq db), c_name = name, c_category = category,
                 c_description = description, c_doc_slug = doc_slug, c_url = url\<rparr>
      in db\<lparr>components := filter (\<lambda>r. c_name r \<noteq> name) (components db) @ [new],
             components_seq := Suc (components_seq db)\<rparr>)"

text \<open>The writes as data, to speak of every sequence of them.\<close>

datatype op =
    InsertSection string string string int string int string
  | InsertComponent string "string option" string "string option" "string option"
  | ClearDb

fun apply_op :: "op \<Rightarrow> database \<Rightarrow> database" where
  "apply_op (InsertSection slug title heading level content position url) db =
     insert_section slug title heading level content position url db"
| "apply_op (InsertComponent name category description doc_slug url) db =
     insert_component name category description doc_slug url db"
| "apply_op ClearDb db = clear_db db"

definition run :: "op list \<Rightarrow> database \<Rightarrow> database" where
  "run ops db = fold apply_op ops db"

subsection \<open>Python string helpers\<close>

text \<open>
  \<open>str.isspace\<close> on one character, for the code points a \<open>char\<close> reaches: tab to
  carriage return, the four separators 28-31, space, NEL and the no-break space.
\<close>

definition is_space :: "char \<Rightarrow> bool" where
  "is_space c = (let n = (of_char c :: nat) in
     (9 \<le> n \<and> n \<le> 13) \<or> (28 \<le> n \<and> n \<le> 32) \<or> n = 133 \<or> n = 160)"

definition str_strip :: "string \<Rightarrow> string" where
  "str_strip s = rev (dropWhile is_space (rev (dropWhile is_space s)))"

text \<open>\<open>str.split()\<close> with no separator: the maximal runs of non-whitespace.\<close>

fun split_from :: "string \<Rightarrow> string \<Rightarrow> string list" where
  "split_from cur [] = (if cur = [] then [] else [cur])"
| "split_from cur (c # cs) =
     (if is_space c then (if cur = [] then split_from [] cs else cur # split_from [] cs)
      else split_from (cur @ [c]) cs)"

definition str_split :: "string \<Rightarrow> string list" where
  "str_split s = split_from [] s"

fun str_join :: "string \<Rightarrow> string list \<Rightarrow> string" where
  "str_join sep [] = []"
| "str_join sep [x] = x"
| "str_join sep (x # y # ys) = x @ sep @ str_join sep (y # ys)"

text \<open>\<open>name.startswith("rx.")\<close> and \<open>name.replace("rx.", "")\<close>.\<close>

definition startswith_rx :: "string \<Rightarrow> bool" where
  "startswith_rx name = (take 3 name = ''rx.'')"

fun replace_rx :: "string \<Rightarrow> string" where
  "replace_rx (a # b # c # rest) =
     (if [a, b, c] = ''rx.'' then replace_rx rest else a # replace_rx (b # c # rest))"
| "replace_rx s = s"

subsection \<open>Reads of the record store\<close>

text \<open>
  \<open>get_page_sections\<close> (lines 211-243). The SELECT keeps the rows of the slug and orders
  them by position; rows of equal position stay in rowid order here.
\<close>

definition select_page_rows :: "database \<Rightarrow> string \<Rightarrow> section_row list" where
  "select_page_rows db slug =
     sort_key s_position (filter (\<lambda>r. s_slug r = slug) (docs_sections db))"

definition doc_section :: "section_row \<Rightarrow> DocSection" where
  "doc_section row = \<lparr>ds_heading = s_heading row, ds_level = s_level row,
     ds_content = s_content row\<rparr>"

definition get_page_sections :: "database \<Rightarrow> string \<Rightarrow> DocPage option" where
  "get_page_sections db slug =
     (case select_page_rows db slug of
        [] \<Rightarrow> None
      | row0 # rest \<Rightarrow>
          Some \<lparr>dp_slug = s_slug row0, dp_title = s_title row0, dp_url = s_url row0,
                dp_sections = map doc_section (row0 # rest)\<rparr>)"

definition component_info :: "component_row \<Rightarrow> ComponentInfo" where
  "component_info row = \<lparr>ci_name = c_name row, ci_category = c_category row,
     ci_description = c_description row, ci_doc_slug = c_doc_slug row, ci_url = c_url row\<rparr>"

text \<open>
  \<open>list_all_components\<close> (lines 246-268). \<open>if category:\<close> is false for \<open>None\<close> and for
  the empty string. In SQL a NULL category equals nothing.
\<close>

definition list_all_components :: "string option \<Rightarrow> database \<Rightarrow> ComponentInfo list" where
  "list_all_components category db =
     (case category of
        Some cat \<Rightarrow>
          if cat \<noteq> [] then
            map component_info
              (sort_key c_name (filter (\<lambda>r. c_category r = Some cat) (components db)))
          else map component_info (sort_key c_name (components db))
      | None \<Rightarrow> map component_info (sort_key c_name (components db)))"

text \<open>\<open>SELECT * FROM components WHERE name = ?\<close> followed by \<open>fetchone\<close>.\<close>

definition select_component :: "database \<Rightarrow> string \<Rightarrow> component_row option" where
  "select_component db name = find (\<lambda>r. c_name r = name) (components db)"

text \<open>\<open>get_component_by_name\<close> (lines 271-301).\<close>

definition get_component_by_name :: "database \<Rightarrow> string \<Rightarrow> ComponentInfo option" where
  "get_component_by_name db name =
     (let search_name = (if startswith_rx name then name else ''rx.'' @ name) in
      case select_component db search_name of
        Some row \<Rightarrow> Some (component_info row)
      | None \<Rightarrow>
          (case select_component db (replace_rx name) of
             Some row \<Rightarrow> Some (component_info row)
           | None \<Rightarrow> None))"

text \<open>\<open>get_stats\<close> (lines 304-322).\<close>

definition get_stats :: "database \<Rightarrow> stats" where
  "get_stats db =
     \<lparr>st_sections = int (length (docs_sections db)),
      st_pages = int (length (remdups (map s_slug (docs_sections db)))),
      st_components = int (length (components db))\<rparr>"

subsection \<open>The FTS5 query string\<close>

text \<open>
  SQLite is not part of the sources. What it does with the argument of \<open>MATCH\<close> is taken
  from its documentation of the FTS5 query syntax, in two parts. The splitting of the
  query text into tokens is written out below: a string is either enclosed in double
  quotes, where a doubled double quote stands for one and a missing closing quote is
  the error "unterminated string", or a bareword (letters, digits, underscore, the
  substitute character and everything beyond ASCII), where the barewords AND, OR and
  NOT are operators; the punctuation of the query language is one token per character;
  any other character is a syntax error. The rest, which parses the tokens, matches
  them against the index and ranks each matching rowid with \<open>bm25\<close>, is a parameter
  of the model: a function from the tokens and the index to the hits, or to an error.
\<close>

datatype fts5_token =
    FTS5_STRING string
  | FTS5_OR | FTS5_AND | FTS5_NOT
  | FTS5_LP | FTS5_RP | FTS5_LCP | FTS5_RCP
  | FTS5_COLON | FTS5_COMMA | FTS5_PLUS | FTS5_STAR | FTS5_MINUS | FTS5_CARET

type_synonym fts5_engine =
  "fts5_token list \<Rightarrow> fts_entry list \<Rightarrow> sqlite_error + (nat \<times> real) list"

definition dquote :: char where
  "dquote = CHR 0x22"

definition fts5_isspace :: "char \<Rightarrow> bool" where
  "fts5_isspace c = (c = CHR '' '' \<or> c = CHR 0x09 \<or> c = CHR 0x0A \<or> c = CHR 0x0D)"

definition fts5_isbareword :: "char \<Rightarrow> bool" where
  "fts5_isbareword c = (let n = (of_char c :: nat) in
     128 \<le> n \<or> (48 \<le> n \<and> n \<le> 57) \<or> (65 \<le> n \<and> n \<le> 90) \<or> (97 \<le> n \<and> n \<le> 122)
     \<or> n = 95 \<or> n = 26)"

text \<open>
  The text after an opening double quote: the string's content and what follows the
  closing quote, or \<open>None\<close> when the text ends first (a NUL ends it too).
\<close>

fun fts5_quoted :: "string \<Rightarrow> string \<Rightarrow> (string \<times> string) option" where
  "fts5_quoted acc [] = None"
| "fts5_quoted acc [c] = (if c = dquote then Some (acc, []) else None)"
| "fts5_quoted acc (c # d # cs) =
     (if c = dquote then
        (if d = dquote then fts5_quoted (acc @ [dquote]) cs else Some (acc, d # cs))
      else if c = CHR 0x00 then None
      else fts5_quoted (acc @ [c]) (d # cs))"

definition fts5_keyword :: "string \<Rightarrow> fts5_token" where
  "fts5_keyword w =
     (if w = ''OR'' then FTS5_OR else if w = ''NOT'' then FTS5_NOT
      else if w = ''AND'' then FTS5_AND else FTS5_STRING w)"

definition fts5_punct :: "char \<Rightarrow> fts5_token option" where
  "fts5_punct c =
     (if c = CHR ''('' then Some FTS5_LP else if c = CHR '')'' then Some FTS5_RP
      else if c = CHR ''{'' then Some FTS5_LCP else if c = CHR ''}'' then Some FTS5_RCP
      else if c = CHR '':'' then Some FTS5_COLON else if c = CHR '','' then Some FTS5_COMMA
      else if c = CHR ''+'' then Some FTS5_PLUS else if c = CHR ''*'' then Some FTS5_STAR
      else if c = CHR ''-'' then Some FTS5_MINUS else if c = CHR ''^'' then Some FTS5_CARET
      else None)"

definition cons_token :: "fts5_token \<Rightarrow> sqlite_error + fts5_token list \<Rightarrow> sqlite_error + fts5_token list" where
  "cons_token t r = (case r of Inl e \<Rightarrow> Inl e | Inr ts \<Rightarrow> Inr (t # ts))"

lemma fts5_quoted_shorter:
  "fts5_quoted acc cs = Some (s, rest) \<Longrightarrow> length rest < length cs"
  by (induction acc cs rule: fts5_quoted.induct) (auto split: if_splits)

function fts5_tokens :: "string \<Rightarrow> sqlite_error + fts5_token list" where
  "fts5_tokens [] = Inr []"
| "fts5_tokens (c # cs) =
     (if fts5_isspace c then fts5_tokens cs
      else if c = CHR 0x00 then Inr []
      else if c = dquote then
        (case fts5_quoted [] cs of
           None \<Rightarrow> Inl OperationalError
         | Some (s, rest) \<Rightarrow> cons_token (FTS5_STRING s) (fts5_tokens rest))
      else
        (case fts5_punct c of
           Some t \<Rightarrow> cons_token t (fts5_tokens cs)
         | None \<Rightarrow>
             if \<not> fts5_isbareword c then Inl OperationalError
             else cons_token (fts5_keyword (c # takeWhile fts5_isbareword cs))
                    (fts5_tokens (dropWhile fts5_isbareword cs))))"
  by pat_completeness auto
termination
  by (relation "measure length")
     (auto simp: le_imp_less_Suc length_dropWhile_le dest: fts5_quoted_shorter)

subsection \<open>search\_sections\<close>

text \<open>
  The SELECT of \<open>search_sections\<close> (lines 176-192): the hits of the index for the query,
  each joined to its section row by \<open>fts.rowid = s.id\<close>, ordered by the bm25 score
  ascending and cut by LIMIT. SQLite reads a negative LIMIT as no limit.
\<close>

definition join_sections :: "database \<Rightarrow> (nat \<times> real) list \<Rightarrow> (section_row \<times> real) list" where
  "join_sections db hits =
     concat (map (\<lambda>(rowid, score).
       map (\<lambda>s. (s, score)) (filter (\<lambda>s. s_id s = rowid) (docs_sections db))) hits)"

definition sql_limit :: "int \<Rightarrow> 'a list \<Rightarrow> 'a list" where
  "sql_limit n rows = (if n < 0 then rows else take (nat n) rows)"

definition select_matches ::
  "fts5_engine \<Rightarrow> database \<Rightarrow> string \<Rightarrow> int \<Rightarrow> sqlite_error + (section_row \<times> real) list" where
  "select_matches fts5 db escaped_query limit =
     (case fts5_tokens escaped_query of
        Inl e \<Rightarrow> Inl e
      | Inr tokens \<Rightarrow>
          (case fts5 tokens (docs_sections_fts db) of
             Inl e \<Rightarrow> Inl e
           | Inr hits \<Rightarrow> Inr (sql_limit limit (sort_key snd (join_sections db hits)))))"

text \<open>The body of the loop over the fetched rows (lines 195-206).\<close>

definition snippet_of :: "string \<Rightarrow> string" where
  "snippet_of content = (if length content > 200 then take 200 content @ ''...'' else content)"

definition doc_result :: "section_row \<times> real \<Rightarrow> DocResult" where
  "doc_result row =
     \<lparr>dr_slug = s_slug (fst row), dr_title = s_title (fst row), dr_score = \<bar>snd row\<bar>,
      dr_snippet = snippet_of (s_content (fst row)), dr_url = s_url (fst row)\<rparr>"

definition escape_query :: "string list \<Rightarrow> string" where
  "escape_query terms = str_join '' '' (map (\<lambda>term. [dquote] @ term @ [dquote]) terms)"

text \<open>
  \<open>search_sections\<close> (lines 160-208). An error of the statement is the exception
  \<open>sqlite3.OperationalError\<close>, which the function does not catch.
\<close>

definition search_sections ::
  "fts5_engine \<Rightarrow> database \<Rightarrow> string \<Rightarrow> int \<Rightarrow> sqlite_error + DocResult list" where
  "search_sections fts5 db query limit =
     (let terms = str_split (str_strip query) in
      if terms = [] then Inr []
      else
        (case select_matches fts5 db (escape_query terms) limit of
           Inl e \<Rightarrow> Inl e
         | Inr rows \<Rightarrow> Inr (map doc_result rows)))"

subsection \<open>State predicates and an example store\<close>



text \<open>The UNIQUE constraint on the name column of \<open>components\<close>.\<close>

definition names_unique :: "database \<Rightarrow> bool" where
  "names_unique db \<longleftrightarrow> distinct (map c_name (components db))"

text \<open>
  The scenario of the spec's section 8: the two sections of the page
  \<open>library/layout/box\<close>, inserted into a fresh store.
\<close>

definition box_ops :: "op list" where
  "box_ops =
     [InsertSection ''library/layout/box'' ''Box'' ''Overview'' 1 ''Box wraps...'' 0 ''/docs/box'',
      InsertSection ''library/layout/box'' ''Box'' ''Usage'' 2 ''Use rx.box(...)'' 1 ''/docs/box'']"

definition box_db :: database where
  "box_db = run box_ops init_db"

definition box_overview :: section_row where
  "box_overview = \<lparr>s_id = 1, s_slug = ''library/layout/box'', s_title = ''Box'',
     s_heading = ''Overview'', s_level = 1, s_content = ''Box wraps...'', s_position = 0,
     s_url = ''/docs/box''\<rparr>"

definition box_usage :: section_row where
  "box_usage = \<lparr>s_id = 2, s_slug = ''library/layout/box'', s_title = ''Box'',
     s_heading = ''Usage'', s_level = 2, s_content = ''Use rx.box(...)'', s_position = 1,
     s_url = ''/docs/box''\<rparr>"


text \<open>
  Two index primitives for the examples: one under which every entry of the index
  matches any query, the entry of rowid \<open>n\<close> with score \<open>- n\<close>, and one that rejects
  every query.
\<close>

definition match_all_fts5 :: fts5_engine where
  "match_all_fts5 tokens index = Inr (map (\<lambda>e. (fts_rowid e, - real (fts_rowid e))) index)"

definition failing_fts5 :: fts5_engine where
  "failing_fts5 tokens index = Inl OperationalError"

text \<open>The example store with a third section, whose content is 250 characters long.\<close>

definition guide_db :: database where
  "guide_db = insert_section ''guide'' ''Guide'' ''Intro'' 1 (replicate 250 CHR ''a'') 0
     ''/docs/guide'' box_db"

definition guide_intro :: section_row where
  "guide_intro = \<lparr>s_id = 3, s_slug = ''guide'', s_title = ''Guide'', s_heading = ''Intro'',
     s_level = 1, s_content = replicate 250 CHR ''a'', s_position = 0, s_url = ''/docs/guide''\<rparr>"

text \<open>A result that carries the fields of a section row and the snippet of its content.\<close>

definition snippet_ok :: "section_row \<Rightarrow> DocResult \<Rightarrow> bool" where
  "snippet_ok s r \<longleftrightarrow>
     dr_slug r = s_slug s \<and> dr_title r = s_title s \<and> dr_url r = s_url s
     \<and> dr_snippet r =
         (if length (s_content s) \<le> 200 then s_content s
          else take 200 (s_content s) @ ''...'')
     \<and> length (dr_snippet r) \<le> 203"

text \<open>
  The lookup as the spec words it, to compare with \<open>get_component_by_name\<close>: the name,
  with \<open>rx.\<close> prepended unless it starts with it, is tried first; then the name with
  a leading \<open>rx.\<close> stripped, unchanged when it has none.
\<close>

definition strip_rx_prefix :: "string \<Rightarrow> string" where
  "strip_rx_prefix name = (if startswith_rx name then drop 3 name else name)"

definition get_component_two_step :: "database \<Rightarrow> string \<Rightarrow> ComponentInfo option" where
  "get_component_two_step db name =
     (case select_component db (if startswith_rx name then name else ''rx.'' @ name) of
        Some row \<Rightarrow> Some (component_info row)
      | None \<Rightarrow>
          (case select_component db (strip_rx_prefix name) of
             Some row \<Rightarrow> Some (component_info row)
           | None \<Rightarrow> None))"

text \<open>Two stores of one component each, named \<open>myrx.card\<close> and \<open>mycard\<close>.\<close>

definition myrx_db :: database where
  "myrx_db = insert_component ''myrx.card'' (Some ''layout'') ''A card'' None None init_db"

definition mycard_db :: database where
  "mycard_db = insert_component ''mycard'' (Some ''layout'') ''Another card'' None None init_db"

section \<open>Properties\<close>

lemma box_db_eq:
  "box_db = \<lparr>docs_sections = [box_overview, box_usage], docs_sections_seq = 2,
     docs_sections_fts = [fts_of box_overview, fts_of box_usage],
     components = [], components_seq = 0\<rparr>"
  by (simp add: box_db_def box_ops_def run_def insert_section_def docs_sections_ai_def
      init_db_def box_overview_def box_usage_def fts_of_def Let_def)

subsection \<open>Clearing the store\<close>

lemma fold_remove1_self: "fold remove1 xs xs = []"
  by (induction xs) simp_all

lemma docs_sections_fold_delete:
  "docs_sections (fold delete_section xs db) = fold remove1 xs (docs_sections db)"
  by (induction xs arbitrary: db) (simp_all add: delete_section_def docs_sections_ad_def)

lemma docs_sections_clear_db: "docs_sections (clear_db db) = []"
  by (simp add: clear_db_def delete_from_docs_sections_def docs_sections_fold_delete
      fold_remove1_self)

lemma components_clear_db: "components (clear_db db) = []"
  by (simp add: clear_db_def)

text \<open>
  Claim C8. After \<open>clear_db\<close> the statistics are all zero, and \<open>get_page_sections\<close> and
  \<open>get_component_by_name\<close> find nothing, whatever the slug or the name and whatever the
  store held before. In any store the \<open>pages\<close> count of \<open>get_stats\<close> is the number of
  distinct slugs among the section rows: one page for the two sections of the example
  store.
\<close>

theorem clear_db_resets:
  "get_stats (clear_db db) = \<lparr>st_sections = 0, st_pages = 0, st_components = 0\<rparr>
   \<and> get_page_sections (clear_db db) slug = None
   \<and> get_component_by_name (clear_db db) name = None
   \<and> st_pages (get_stats db) = int (card (s_slug ` set (docs_sections db)))
   \<and> get_stats box_db = \<lparr>st_sections = 2, st_pages = 1, st_components = 0\<rparr>"
  by (simp add: get_stats_def get_page_sections_def select_page_rows_def
      get_component_by_name_def select_component_def docs_sections_clear_db
      components_clear_db length_remdups_card_conv box_db_eq box_overview_def box_usage_def)

subsection \<open>Listing components\<close>

lemma ci_name_component_info: "ci_name \<circ> component_info = c_name"
  by (simp add: fun_eq_iff component_info_def)


subsection \<open>The index and the section table\<close>


















subsection \<open>Component names are a key\<close>

lemma init_db_names_unique: "names_unique init_db"
  by (simp add: names_unique_def init_db_def)

lemma components_insert_section:
  "components (insert_section sl t h lv c p u db) = components db"
  by (simp add: insert_section_def docs_sections_ai_def Let_def)

lemma insert_component_names_unique:
  assumes "names_unique db"
  shows "names_unique (insert_component n c d s u db)"
  using assms
  by (auto simp: names_unique_def insert_component_def Let_def distinct_map_filter)

lemma apply_op_names_unique: "names_unique db \<Longrightarrow> names_unique (apply_op x db)"
  by (cases x)
     (simp_all add: insert_component_names_unique,
      simp_all add: names_unique_def components_insert_section components_clear_db)

lemma fold_apply_op_names_unique:
  "names_unique db \<Longrightarrow> names_unique (fold apply_op ops db)"
  by (induction ops arbitrary: db) (simp_all add: apply_op_names_unique)

lemma run_names_unique: "names_unique (run ops init_db)"
  unfolding run_def by (rule fold_apply_op_names_unique [OF init_db_names_unique])

lemma list_names:
  "map ci_name (list_all_components category db) =
     (case category of
        Some cat \<Rightarrow> if cat \<noteq> [] then map c_name (sort_key c_name (filter (\<lambda>r. c_category r = Some cat) (components db)))
                    else map c_name (sort_key c_name (components db))
      | None \<Rightarrow> map c_name (sort_key c_name (components db)))"
  by (simp add: list_all_components_def ci_name_component_info split: option.splits)

lemma distinct_map_sort_key:
  "distinct (map f (sort_key g xs)) = distinct (map f xs)"
proof -
  have "mset (map f (sort_key g xs)) = mset (map f xs)" by simp
  then show ?thesis by (rule mset_eq_imp_distinct_iff)
qed

lemma list_all_components_distinct:
  "names_unique db \<Longrightarrow> distinct (map ci_name (list_all_components category db))"
  by (simp add: list_names names_unique_def distinct_map_sort_key distinct_map_filter
      split: option.splits)

lemma filter_component_info:
  "filter (\<lambda>c. P (ci_name c)) (map component_info rows) =
   map component_info (filter (\<lambda>r. P (c_name r)) rows)"
  by (induction rows) (simp_all add: component_info_def)

lemma length_filter_other_names:
  assumes "distinct (map c_name rows)"
  shows "length (filter (\<lambda>r. c_name r \<noteq> n) rows) + (if n \<in> set (map c_name rows) then 1 else 0) =
     length rows"
  using assms
proof (induction rows)
  case Nil
  then show ?case by simp
next
  case (Cons r rows)
  then show ?case by (cases "c_name r = n") (auto simp: image_iff)
qed

text \<open>
  Claim C7. After every sequence of writes on a fresh store no listing of components,
  filtered or not, holds two records with the same name. One more \<open>insert_component\<close>
  leaves exactly one record with that name, carrying the new category, description,
  doc slug and url; the records of the other names are what they were; and the number
  of records stays the same when the name was stored already and grows by one
  otherwise.
\<close>

theorem insert_component_replaces:
  "let db = run ops init_db;
       db' = insert_component name category description doc_slug url db;
       new = \<lparr>ci_name = name, ci_category = category, ci_description = description,
               ci_doc_slug = doc_slug, ci_url = url\<rparr>
   in distinct (map ci_name (list_all_components filter_category db))
      \<and> filter (\<lambda>c. ci_name c = name) (list_all_components None db') = [new]
      \<and> filter (\<lambda>c. ci_name c \<noteq> name) (list_all_components None db') =
          filter (\<lambda>c. ci_name c \<noteq> name) (list_all_components None db)
      \<and> length (list_all_components None db') =
          (if name \<in> set (map ci_name (list_all_components None db))
           then length (list_all_components None db)
           else Suc (length (list_all_components None db)))
"
proof -
  define db where "db = run ops init_db"
  have u: "names_unique db" using run_names_unique [of ops] by (simp add: db_def)
  have d: "distinct (map c_name (components db))" using u by (simp add: names_unique_def)
  have 1: "distinct (map ci_name (list_all_components filter_category db))"
    by (rule list_all_components_distinct [OF u])
  have 2: "filter (\<lambda>c. ci_name c = name)
      (list_all_components None (insert_component name category description doc_slug url db)) =
      [\<lparr>ci_name = name, ci_category = category, ci_description = description,
               ci_doc_slug = doc_slug, ci_url = url\<rparr>]"
    by (simp add: list_all_components_def filter_component_info [of "\<lambda>x. x = name"]
        filter_sort insert_component_def Let_def component_info_def)
  have 3: "filter (\<lambda>c. ci_name c \<noteq> name)
      (list_all_components None (insert_component name category description doc_slug url db)) =
      filter (\<lambda>c. ci_name c \<noteq> name) (list_all_components None db)"
    by (simp add: list_all_components_def filter_component_info [of "\<lambda>x. x \<noteq> name"]
        filter_sort insert_component_def Let_def)
  have 4: "length (list_all_components None (insert_component name category description doc_slug url db)) =
          (if name \<in> set (map ci_name (list_all_components None db))
           then length (list_all_components None db)
           else Suc (length (list_all_components None db)))"
    using length_filter_other_names [OF d, of name]
    by (simp add: list_all_components_def insert_component_def Let_def component_info_def
        image_image split: if_splits)
  show ?thesis
    unfolding Let_def db_def [symmetric] using 1 2 3 4 by simp
qed

subsection \<open>Pages\<close>

lemma hd_sorted_least:
  assumes "sorted (map f rows)" and "r \<in> set rows"
  shows "f (hd rows) \<le> f r"
  using assms by (cases rows) auto

text \<open>
  Claim C2. The rows that \<open>get_page_sections\<close> fetches for a slug are exactly the stored
  sections with that slug, in non-decreasing position order. When there is none the
  result is \<open>None\<close>; otherwise it is a page with that slug whose sections are those
  rows in that order and whose title and url are those of the first row, and the first
  row's position is the lowest among the stored sections with the slug.
\<close>

theorem get_page_sections_ordered:
  "let rows = select_page_rows db slug
   in mset rows = mset (filter (\<lambda>r. s_slug r = slug) (docs_sections db))
      \<and> sorted (map s_position rows)
      \<and> (rows = [] \<longleftrightarrow> slug \<notin> set (map s_slug (docs_sections db)))
      \<and> get_page_sections db slug =
          (if rows = [] then None
           else Some \<lparr>dp_slug = slug, dp_title = s_title (hd rows), dp_url = s_url (hd rows),
                      dp_sections = map doc_section rows\<rparr>)
      \<and> (\<forall>r \<in> set (docs_sections db).
            s_slug r = slug \<longrightarrow> s_position (hd rows) \<le> s_position r)"
proof -
  define rows where "rows = select_page_rows db slug"
  have m: "mset rows = mset (filter (\<lambda>r. s_slug r = slug) (docs_sections db))"
    by (simp add: rows_def select_page_rows_def)
  have s: "sorted (map s_position rows)"
    by (simp add: rows_def select_page_rows_def)
  have set_rows: "set rows = {r \<in> set (docs_sections db). s_slug r = slug}"
    using mset_eq_setD [OF m] by simp
  have e: "rows = [] \<longleftrightarrow> slug \<notin> set (map s_slug (docs_sections db))"
    using set_rows by (cases rows) auto
  have slug_hd: "rows \<noteq> [] \<Longrightarrow> s_slug (hd rows) = slug"
    using set_rows by (cases rows) auto
  have g: "get_page_sections db slug =
          (if rows = [] then None
           else Some \<lparr>dp_slug = slug, dp_title = s_title (hd rows), dp_url = s_url (hd rows),
                      dp_sections = map doc_section rows\<rparr>)"
    using slug_hd by (cases rows) (simp_all add: get_page_sections_def rows_def [symmetric])
  have l: "\<forall>r \<in> set (docs_sections db).
            s_slug r = slug \<longrightarrow> s_position (hd rows) \<le> s_position r"
    using hd_sorted_least [OF s] set_rows by simp
  show ?thesis
    unfolding Let_def rows_def [symmetric] using m s e g l by simp
qed

lemma rev_box_db_eq:
  "run (rev box_ops) init_db = \<lparr>docs_sections = [box_usage\<lparr>s_id := 1\<rparr>, box_overview\<lparr>s_id := 2\<rparr>],
     docs_sections_seq = 2,
     docs_sections_fts = [fts_of (box_usage\<lparr>s_id := 1\<rparr>), fts_of (box_overview\<lparr>s_id := 2\<rparr>)],
     components = [], components_seq = 0\<rparr>"
  by (simp add: box_ops_def run_def insert_section_def docs_sections_ai_def
      init_db_def box_overview_def box_usage_def fts_of_def Let_def)

theorem get_page_sections_ordered_witness:
  "box_usage\<lparr>s_id := 1\<rparr> \<in> set (docs_sections (run (rev box_ops) init_db))
   \<and> s_slug (box_usage\<lparr>s_id := 1\<rparr>) = ''library/layout/box''
   \<and> s_position (hd (select_page_rows (run (rev box_ops) init_db) ''library/layout/box''))
       \<le> s_position (box_usage\<lparr>s_id := 1\<rparr>)
   \<and> get_page_sections (run (rev box_ops) init_db) ''library/layout/box'' =
       Some \<lparr>dp_slug = ''library/layout/box'', dp_title = ''Box'', dp_url = ''/docs/box'',
             dp_sections =
               [\<lparr>ds_heading = ''Overview'', ds_level = 1, ds_content = ''Box wraps...''\<rparr>,
                \<lparr>ds_heading = ''Usage'', ds_level = 2, ds_content = ''Use rx.box(...)''\<rparr>]\<rparr>"
proof -
  have m: "box_usage\<lparr>s_id := 1\<rparr> \<in> set (docs_sections (run (rev box_ops) init_db))"
    by (simp add: rev_box_db_eq)
  have sl: "s_slug (box_usage\<lparr>s_id := 1\<rparr>) = ''library/layout/box''"
    by (simp add: box_usage_def)
  have rows: "select_page_rows (run (rev box_ops) init_db) ''library/layout/box'' =
      [box_overview\<lparr>s_id := 2\<rparr>, box_usage\<lparr>s_id := 1\<rparr>]"
    by (simp add: rev_box_db_eq select_page_rows_def box_usage_def box_overview_def)
  from get_page_sections_ordered [of "run (rev box_ops) init_db" "''library/layout/box''"]
  have "(\<forall>r \<in> set (docs_sections (run (rev box_ops) init_db)).
            s_slug r = ''library/layout/box'' \<longrightarrow>
            s_position (hd (select_page_rows (run (rev box_ops) init_db) ''library/layout/box''))
              \<le> s_position r)
        \<and> get_page_sections (run (rev box_ops) init_db) ''library/layout/box'' =
          Some \<lparr>dp_slug = ''library/layout/box'',
            dp_title = s_title (hd (select_page_rows (run (rev box_ops) init_db) ''library/layout/box'')),
            dp_url = s_url (hd (select_page_rows (run (rev box_ops) init_db) ''library/layout/box'')),
            dp_sections = map doc_section (select_page_rows (run (rev box_ops) init_db) ''library/layout/box'')\<rparr>"
    unfolding Let_def by (simp add: rows)
  with m sl show ?thesis
    by (auto simp: rows doc_section_def box_overview_def box_usage_def)
qed

subsection \<open>Whitespace queries\<close>

lemma split_from_whitespace:
  "\<forall>c \<in> set s. is_space c \<Longrightarrow> split_from [] s = []"
proof (induction s)
  case Nil
  show ?case by simp
next
  case (Cons a s)
  then have a: "is_space a" and IH: "split_from [] s = []" by simp_all
  show ?case by (simp add: a IH)
qed

lemma str_strip_whitespace:
  "\<forall>c \<in> set s. is_space c \<Longrightarrow> str_strip s = []"
proof -
  assume "\<forall>c \<in> set s. is_space c"
  then have d: "dropWhile is_space s = []" by simp
  show ?thesis unfolding str_strip_def d by simp
qed

text \<open>
  Claim C6. For a query that is empty or holds only whitespace, \<open>search_sections\<close>
  returns the empty list as a value, whatever the store, the limit and the index
  primitive: the statement is never executed.
\<close>

theorem search_sections_whitespace:
  assumes "\<forall>c \<in> set query. is_space c"
  shows "search_sections fts5 db query limit = Inr []"
  using assms
  by (simp add: search_sections_def str_split_def str_strip_whitespace)

theorem search_sections_whitespace_witness:
  "is_space CHR '' '' \<and> is_space CHR 0x09 \<and> is_space CHR 0x0A
   \<and> search_sections failing_fts5 box_db [CHR '' '', CHR 0x09, CHR 0x0A] 10 = Inr []
   \<and> search_sections failing_fts5 box_db [] 10 = Inr []"
proof -
  have s: "is_space CHR '' '' \<and> is_space CHR 0x09 \<and> is_space CHR 0x0A"
    by (simp add: is_space_def)
  then have w: "\<forall>c \<in> set [CHR '' '', CHR 0x09, CHR 0x0A]. is_space c"
    by simp
  have e: "\<forall>c \<in> set ([] :: string). is_space c" by simp
  from s search_sections_whitespace [OF w] search_sections_whitespace [OF e]
  show ?thesis by (intro conjI) simp_all
qed

subsection \<open>Search results\<close>

lemma set_sql_limit: "set (sql_limit n rows) \<subseteq> set rows"
  by (simp add: sql_limit_def set_take_subset)

lemma join_sections_member:
  "row \<in> set (join_sections db hits) \<Longrightarrow>
     fst row \<in> set (docs_sections db) \<and> (s_id (fst row), snd row) \<in> set hits"
  by (auto simp: join_sections_def)

lemma search_sections_rows:
  assumes "search_sections fts5 db query limit = Inr results" and "results \<noteq> []"
  shows "\<exists>tokens hits. fts5 tokens (docs_sections_fts db) = Inr hits
        \<and> results = map doc_result (sql_limit limit (sort_key snd (join_sections db hits)))"
proof (cases "str_split (str_strip query) = []")
  case True
  with assms show ?thesis by (simp add: search_sections_def)
next
  case False
  define q where "q = escape_query (str_split (str_strip query))"
  from False assms have sel: "(case select_matches fts5 db q limit of
           Inl e \<Rightarrow> Inl e
         | Inr rows \<Rightarrow> Inr (map doc_result rows)) = Inr results"
    by (simp add: search_sections_def q_def)
  then obtain rows where rows: "select_matches fts5 db q limit = Inr rows"
    and res: "results = map doc_result rows"
    by (cases "select_matches fts5 db q limit") auto
  from rows obtain tokens where t: "fts5_tokens q = Inr tokens"
    by (cases "fts5_tokens q") (simp_all add: select_matches_def)
  from rows t obtain hits where h: "fts5 tokens (docs_sections_fts db) = Inr hits"
    by (cases "fts5 tokens (docs_sections_fts db)") (simp_all add: select_matches_def)
  from rows t h have "rows = sql_limit limit (sort_key snd (join_sections db hits))"
    by (simp add: select_matches_def)
  with h res show ?thesis by blast
qed

lemma length_snippet_of: "length (snippet_of content) \<le> 203"
  by (simp add: snippet_of_def)


lemma doc_result_fields:
  "dr_slug (doc_result row) = s_slug (fst row)"
  "dr_title (doc_result row) = s_title (fst row)"
  "dr_url (doc_result row) = s_url (fst row)"
  "dr_score (doc_result row) = \<bar>snd row\<bar>"
  "dr_snippet (doc_result row) = snippet_of (s_content (fst row))"
  by (simp_all add: doc_result_def)

lemma snippet_of_cases:
  "snippet_of content = (if length content \<le> 200 then content else take 200 content @ ''...'')"
  by (simp add: snippet_of_def)



lemma search_sections_result_row:
  assumes "search_sections fts5 db query limit = Inr results" and "r \<in> set results"
  shows "\<exists>row. r = doc_result row \<and> fst row \<in> set (docs_sections db)"
proof -
  from assms(2) have ne: "results \<noteq> []" by (cases results) simp_all
  from search_sections_rows [OF assms(1) ne] obtain tokens hits where
    res: "results = map doc_result (sql_limit limit (sort_key snd (join_sections db hits)))"
    by (elim exE conjE)
  from assms(2) have "r \<in> doc_result ` set (sql_limit limit (sort_key snd (join_sections db hits)))"
    unfolding res by (simp only: set_map)
  then obtain row where
    row: "row \<in> set (sql_limit limit (sort_key snd (join_sections db hits)))"
    and rr: "r = doc_result row"
    by (rule imageE)
  from row have "row \<in> set (sort_key snd (join_sections db hits))"
    by (rule subsetD [OF set_sql_limit])
  then have "row \<in> set (join_sections db hits)" by (simp only: set_sort)
  then have "fst row \<in> set (docs_sections db)" by (simp only: join_sections_member)
  with rr show ?thesis by (intro exI [of _ row] conjI)
qed



lemma guide_db_eq:
  "guide_db = \<lparr>docs_sections = [box_overview, box_usage, guide_intro], docs_sections_seq = 3,
     docs_sections_fts = [fts_of box_overview, fts_of box_usage, fts_of guide_intro],
     components = [], components_seq = 0\<rparr>"
  by (simp add: guide_db_def box_db_eq insert_section_def docs_sections_ai_def guide_intro_def
      fts_of_def Let_def)

lemma split_box: "str_split (str_strip ''box'') = [''box'']"
  by (simp add: str_split_def str_strip_def is_space_def)

lemma tokens_of_box: "fts5_tokens (escape_query [''box'']) = Inr [FTS5_STRING ''box'']"
  by (simp add: escape_query_def dquote_def fts5_isspace_def cons_token_def)

lemma snippet_ok_doc_result: "snippet_ok (fst row) (doc_result row)"
  unfolding snippet_ok_def doc_result_fields
  using length_snippet_of [of "s_content (fst row)"]
  by (simp add: snippet_of_cases)

lemma search_sections_snippet_ok:
  assumes "search_sections fts5 db query limit = Inr results"
  shows "\<forall>r \<in> set results. \<exists>s \<in> set (docs_sections db). snippet_ok s r"
proof
  fix r assume "r \<in> set results"
  from search_sections_result_row [OF assms this] obtain row where
    rr: "r = doc_result row" and s: "fst row \<in> set (docs_sections db)"
    by (elim exE conjE)
  have "snippet_ok (fst row) r"
    unfolding rr by (rule snippet_ok_doc_result)
  with s show "\<exists>s \<in> set (docs_sections db). snippet_ok s r"
    by (rule bexI [rotated])
qed

text \<open>
  Claim C9. Every result of \<open>search_sections\<close> is made from a stored section: it has
  that section's slug, title and url, and its snippet is the section's content when
  the content has at most 200 characters and otherwise the first 200 characters of the
  content followed by three dots; the snippet is never longer than 203 characters.
\<close>

theorem search_sections_snippet:
  assumes "search_sections fts5 db query limit = Inr results"
  shows "\<forall>r \<in> set results. \<exists>s \<in> set (docs_sections db).
     dr_slug r = s_slug s \<and> dr_title r = s_title s \<and> dr_url r = s_url s
     \<and> dr_snippet r =
         (if length (s_content s) \<le> 200 then s_content s
          else take 200 (s_content s) @ ''...'')
     \<and> length (dr_snippet r) \<le> 203"
  using search_sections_snippet_ok [OF assms] unfolding snippet_ok_def .

lemma search_guide:
  "search_sections match_all_fts5 guide_db ''box'' 1 =
     Inr [\<lparr>dr_slug = ''guide'', dr_title = ''Guide'', dr_score = 3,
           dr_snippet = replicate 200 CHR ''a'' @ ''...'', dr_url = ''/docs/guide''\<rparr>]"
  by (simp add: search_sections_def split_box tokens_of_box select_matches_def match_all_fts5_def
      guide_db_eq join_sections_def sql_limit_def doc_result_def snippet_of_def
      box_overview_def box_usage_def guide_intro_def fts_of_def Let_def)

theorem search_sections_snippet_witness:
  "search_sections match_all_fts5 guide_db ''box'' 1 =
     Inr [\<lparr>dr_slug = ''guide'', dr_title = ''Guide'', dr_score = 3,
           dr_snippet = replicate 200 CHR ''a'' @ ''...'', dr_url = ''/docs/guide''\<rparr>]
   \<and> length (replicate 200 CHR ''a'' @ ''...'') \<le> 203"
proof -
  from search_sections_snippet [OF search_guide]
  have "length (replicate 200 CHR ''a'' @ ''...'') \<le> 203"
    by (simp only: list.set ball_simps DocResult.simps bex_simps) simp
  with search_guide show ?thesis by (rule conjI)
qed

subsection \<open>Ranking and the limit\<close>












subsection \<open>Component lookup\<close>

text \<open>
  The lookup finds a component stored as \<open>rx.button\<close> under both spellings of its
  name.
\<close>

lemma get_component_namespaced:
  assumes "select_component db ''rx.button'' = Some row"
  shows "get_component_by_name db ''button'' = Some (component_info row)
     \<and> get_component_by_name db ''rx.button'' = Some (component_info row)"
  using assms by (simp add: get_component_by_name_def startswith_rx_def)

text \<open>
  Claim C3. The second lookup of \<open>get_component_by_name\<close> does not strip a leading
  \<open>rx.\<close> from the name: \<open>name.replace("rx.", "")\<close> removes every occurrence of
  \<open>rx.\<close>, wherever it stands. For the name \<open>myrx.card\<close>, which has no such prefix,
  the claim's second lookup is of \<open>myrx.card\<close> itself, the code's is of \<open>mycard\<close>:
  a component stored under exactly \<open>myrx.card\<close> is not found, and in a store that
  holds \<open>mycard\<close> the record of that other component is returned.
\<close>

theorem get_component_by_name_replaces_everywhere:
  "replace_rx ''myrx.card'' = ''mycard''
   \<and> strip_rx_prefix ''myrx.card'' = ''myrx.card''
   \<and> select_component myrx_db ''myrx.card'' =
       Some \<lparr>c_id = 1, c_name = ''myrx.card'', c_category = Some ''layout'',
             c_description = ''A card'', c_doc_slug = None, c_url = None\<rparr>
   \<and> get_component_by_name myrx_db ''myrx.card'' = None
   \<and> get_component_two_step myrx_db ''myrx.card'' =
       Some \<lparr>ci_name = ''myrx.card'', ci_category = Some ''layout'',
             ci_description = ''A card'', ci_doc_slug = None, ci_url = None\<rparr>
   \<and> get_component_by_name mycard_db ''myrx.card'' =
       Some \<lparr>ci_name = ''mycard'', ci_category = Some ''layout'',
             ci_description = ''Another card'', ci_doc_slug = None, ci_url = None\<rparr>
   \<and> get_component_two_step mycard_db ''myrx.card'' = None"
  by (simp add: get_component_by_name_def get_component_two_step_def strip_rx_prefix_def
      startswith_rx_def select_component_def myrx_db_def mycard_db_def insert_component_def
      init_db_def component_info_def Let_def)

subsection \<open>Quoting of the query terms\<close>

text \<open>
  Terms that hold no double quote (and no NUL) reach the index as the strings they
  are: the quoting does what it is meant to do for every other character.
\<close>

lemma fts5_quoted_plain:
  assumes "dquote \<notin> set t" and "CHR 0x00 \<notin> set t" and "rest = [] \<or> hd rest \<noteq> dquote"
  shows "fts5_quoted acc (t @ dquote # rest) = Some (acc @ t, rest)"
  using assms
proof (induction t arbitrary: acc)
  case Nil
  then show ?case by (cases rest) simp_all
next
  case (Cons a t)
  obtain d cs where dc: "t @ dquote # rest = d # cs"
    by (cases t) simp_all
  from Cons.prems have a: "a \<noteq> dquote" "a \<noteq> CHR 0x00" by auto
  have "fts5_quoted acc ((a # t) @ dquote # rest) = fts5_quoted (acc @ [a]) (t @ dquote # rest)"
    using a by (simp add: dc)
  also have "\<dots> = Some ((acc @ [a]) @ t, rest)"
    using Cons.prems by (intro Cons.IH) simp_all
  finally show ?case by simp
qed

lemma dquote_not_space: "\<not> fts5_isspace dquote" "dquote \<noteq> CHR 0x00"
  by (simp_all add: fts5_isspace_def dquote_def)

lemma fts5_tokens_quoted:
  "fts5_quoted [] cs = Some (s, rest) \<Longrightarrow>
     fts5_tokens (dquote # cs) = cons_token (FTS5_STRING s) (fts5_tokens rest)"
  by (simp add: dquote_not_space)

lemma escape_query_simps:
  "escape_query [] = []"
  "escape_query [x] = dquote # x @ [dquote]"
  "escape_query (x # y # ys) = dquote # x @ dquote # CHR '' '' # escape_query (y # ys)"
  by (simp_all add: escape_query_def)

lemma fts5_tokens_quoted_terms:
  assumes "\<forall>t \<in> set terms. dquote \<notin> set t \<and> CHR 0x00 \<notin> set t"
  shows "fts5_tokens (escape_query terms) = Inr (map FTS5_STRING terms)"
  using assms
proof (induction terms rule: induct_list012)
  case 1
  show ?case by (simp add: escape_query_simps)
next
  case (2 x)
  then have "fts5_quoted [] (x @ dquote # []) = Some ([] @ x, [])"
    by (intro fts5_quoted_plain) simp_all
  then have "fts5_tokens (dquote # x @ [dquote]) = cons_token (FTS5_STRING x) (fts5_tokens [])"
    by (intro fts5_tokens_quoted) simp
  then show ?case
    by (simp add: escape_query_simps cons_token_def)
next
  case (3 x y ys)
  from "3.prems" have q: "fts5_quoted [] (x @ dquote # CHR '' '' # escape_query (y # ys)) =
      Some ([] @ x, CHR '' '' # escape_query (y # ys))"
    by (intro fts5_quoted_plain) (simp_all add: dquote_def)
  from "3.prems" have "fts5_tokens (escape_query (y # ys)) = Inr (map FTS5_STRING (y # ys))"
    by (intro "3.IH"(2)) simp
  then have sp: "fts5_tokens (CHR '' '' # escape_query (y # ys)) = Inr (map FTS5_STRING (y # ys))"
    by (simp add: fts5_isspace_def)
  have "fts5_tokens (dquote # x @ dquote # CHR '' '' # escape_query (y # ys)) =
      cons_token (FTS5_STRING x) (fts5_tokens (CHR '' '' # escape_query (y # ys)))"
    using q by (intro fts5_tokens_quoted) simp
  then show ?case
    by (simp only: escape_query_simps sp cons_token_def sum.case list.map)
qed

lemma split_dquote: "str_split (str_strip [dquote]) = [[dquote]]"
  by (simp add: str_split_def str_strip_def is_space_def dquote_def)

lemma escape_dquote: "escape_query [[dquote]] = [dquote, dquote, dquote]"
  by (simp add: escape_query_def)

lemma tokens_dquotes: "fts5_tokens [dquote, dquote, dquote] = Inl OperationalError"
  by (simp add: fts5_isspace_def dquote_def)

lemma escape_injection:
  "escape_query (str_split (str_strip (''a'' @ [dquote] @ ''OR'' @ [dquote] @ ''b''))) =
     [dquote] @ ''a'' @ [dquote] @ ''OR'' @ [dquote] @ ''b'' @ [dquote]"
  by (simp add: escape_query_def str_split_def str_strip_def is_space_def dquote_def)

lemma tokens_injection:
  "fts5_tokens ([dquote] @ ''a'' @ [dquote] @ ''OR'' @ [dquote] @ ''b'' @ [dquote]) =
     Inr [FTS5_STRING ''a'', FTS5_OR, FTS5_STRING ''b'']"
  by (simp add: fts5_isspace_def dquote_def fts5_punct_def fts5_isbareword_def
      fts5_keyword_def cons_token_def)

text \<open>
  Claim C5. The terms are wrapped in double quotes, but a double quote inside a term
  is not doubled. The query consisting of one double quote becomes three double quotes,
  an unterminated FTS5 string: \<open>search_sections\<close> raises \<open>OperationalError\<close>, whatever
  the store, the limit and the rest of the index primitive. And the term
  \<open>a"OR"b\<close> reaches the index as the two strings \<open>a\<close> and \<open>b\<close> joined by the operator
  \<open>OR\<close>.
\<close>

theorem search_sections_quote_not_escaped:
  "escape_query (str_split (str_strip [dquote])) = [dquote, dquote, dquote]
   \<and> fts5_tokens [dquote, dquote, dquote] = Inl OperationalError
   \<and> search_sections fts5 db [dquote] limit = Inl OperationalError
   \<and> fts5_tokens (escape_query (str_split (str_strip (''a'' @ [dquote] @ ''OR'' @ [dquote] @ ''b'')))) =
       Inr [FTS5_STRING ''a'', FTS5_OR, FTS5_STRING ''b'']"
proof -
  have 1: "escape_query (str_split (str_strip [dquote])) = [dquote, dquote, dquote]"
    by (simp only: split_dquote escape_dquote)
  have 3: "search_sections fts5 db [dquote] limit = Inl OperationalError"
    by (simp only: search_sections_def split_dquote escape_dquote select_matches_def
        tokens_dquotes Let_def) simp
  have 4: "fts5_tokens (escape_query (str_split (str_strip (''a'' @ [dquote] @ ''OR'' @ [dquote] @ ''b'')))) =
       Inr [FTS5_STRING ''a'', FTS5_OR, FTS5_STRING ''b'']"
    by (simp only: escape_injection tokens_injection)
  from 1 tokens_dquotes 3 4 show ?thesis by (intro conjI)
qed

end
